theory Spec2Isabelle
  imports Main "HOL-Library.Product_Lexorder"
begin

section \<open>Python 2 built-ins used by stem/version.py\<close>

text \<open>
  The module is Python 2 code (\<^verbatim>\<open>except OSError, exc\<close>, \<^verbatim>\<open>__cmp__\<close>), so its
  strings are byte strings: \<open>string\<close>, a list of 8-bit characters. Integers are unbounded:
  \<open>int\<close>.
\<close>

definition is_digit :: "char \<Rightarrow> bool" where
  \<comment> \<open>the character class \<^verbatim>\<open>[0-9]\<close>\<close>
  "is_digit c = (c \<in> set ''0123456789'')"

definition is_space :: "char \<Rightarrow> bool" where
  \<comment> \<open>the complement of \<^verbatim>\<open>\S\<close> for a byte pattern without flags: space, \<^verbatim>\<open>\t \n \r \f \v\<close>\<close>
  "is_space c = (c \<in> set [CHR '' '', CHR 0x09, CHR 0x0A, CHR 0x0D, CHR 0x0C, CHR 0x0B])"

definition int_of_digits :: "string \<Rightarrow> int" where
  \<comment> \<open>\<^verbatim>\<open>int(s)\<close> on a string of decimal digits\<close>
  "int_of_digits s = foldl (\<lambda>acc c. 10 * acc + (of_char c - 48)) 0 s"

definition startswith :: "string \<Rightarrow> string \<Rightarrow> bool" where
  "startswith s p = (take (length p) s = p)"

definition endswith :: "string \<Rightarrow> string \<Rightarrow> bool" where
  "endswith s p = (length p \<le> length s \<and> drop (length s - length p) s = p)"

definition str_find :: "string \<Rightarrow> char \<Rightarrow> nat \<Rightarrow> int" where
  \<comment> \<open>\<^verbatim>\<open>s.find(c, start)\<close> for a one-character needle: the lowest index at or after
      \<open>start\<close> holding \<open>c\<close>, and \<open>-1\<close> when there is none\<close>
  "str_find s c start =
     (if c \<in> set (drop start s)
      then int (start + length (takeWhile (\<lambda>x. x \<noteq> c) (drop start s)))
      else - 1)"

definition slice_index :: "nat \<Rightarrow> int \<Rightarrow> nat" where
  \<comment> \<open>a slice bound on a sequence of length \<open>n\<close>: a negative bound counts from the end,
      and the result is clipped to \<open>0..n\<close>\<close>
  "slice_index n i = (if i < 0 then nat (max 0 (int n + i)) else min n (nat i))"

definition str_slice :: "string \<Rightarrow> int \<Rightarrow> int \<Rightarrow> string" where
  \<comment> \<open>\<^verbatim>\<open>s[i:j]\<close>\<close>
  "str_slice s i j =
     (let a = slice_index (length s) i; b = slice_index (length s) j
      in take (b - a) (drop a s))"

section \<open>Exceptions\<close>

datatype error =
    ValueError string
  | OSError string
  | IOError string
  | IOError_of error
  | KeyError string
  | AttributeError

definition malformed_message :: "string \<Rightarrow> string" where
  \<comment> \<open>\<^verbatim>\<open>"'%s' isn't a properly formatted tor version" % version_str\<close>\<close>
  "malformed_message version_str =
     [CHR 0x27] @ version_str @ [CHR 0x27] @ '' isn'' @ [CHR 0x27] @ ''t a properly formatted tor version''"

definition unexpected_message :: "string \<Rightarrow> string \<Rightarrow> string" where
  \<comment> \<open>\<^verbatim>\<open>"Unexpected response from '%s': %s" % (version_cmd, last_line)\<close>\<close>
  "unexpected_message version_cmd last_line =
     ''Unexpected response from '' @ [CHR 0x27] @ version_cmd @ [CHR 0x27] @ '': '' @ last_line"

definition no_output_message :: "string \<Rightarrow> string" where
  \<comment> \<open>\<^verbatim>\<open>"'%s' didn't have any output" % version_cmd\<close>\<close>
  "no_output_message version_cmd =
     [CHR 0x27] @ version_cmd @ [CHR 0x27] @ '' didn'' @ [CHR 0x27] @ ''t have any output''"

section \<open>The Version class\<close>

record Version =
  version_str :: string
  major :: int
  minor :: int
  micro :: int
  patch :: "int option"
  status :: "string option"

subsection \<open>The regular expression of the constructor\<close>

text \<open>
  \<^verbatim>\<open>re.match(r'^([0-9]+)\.([0-9]+)\.([0-9]+)(\.[0-9]+)?(-\S*)?$', version_str)\<close>

  The expression is matched piece by piece, left to right, each piece taking as much as
  it can. No other way of matching has to be tried: a run of digits that stopped early
  would leave a digit where a period, a dash or the end is required; an optional group
  that was skipped would leave its period or dash where the end is required; and a
  status that stopped early would leave a non-blank character before the end. The
  lemmas \<open>re_match_version_assemble\<close> and \<open>re_match_version_parts\<close> below state the
  accepted strings without reference to the order of matching.
\<close>

definition digits1 :: "string \<Rightarrow> (string \<times> string) option" where
  \<comment> \<open>\<^verbatim>\<open>[0-9]+\<close>: the matched digits and the rest\<close>
  "digits1 s =
     (let d = takeWhile is_digit s
      in if d = [] then None else Some (d, dropWhile is_digit s))"

definition period :: "string \<Rightarrow> string option" where
  \<comment> \<open>\<^verbatim>\<open>\.\<close>: the rest after the period\<close>
  "period s = (case s of [] \<Rightarrow> None | c # r \<Rightarrow> if c = CHR ''.'' then Some r else None)"

definition opt_patch :: "string \<Rightarrow> string option \<times> string" where
  \<comment> \<open>\<^verbatim>\<open>(\.[0-9]+)?\<close>: the group (with its period) when it takes part, and the rest\<close>
  "opt_patch s =
     (case period s of
        None \<Rightarrow> (None, s)
      | Some r \<Rightarrow>
          (case digits1 r of
             None \<Rightarrow> (None, s)
           | Some (d, r') \<Rightarrow> (Some (CHR ''.'' # d), r')))"

definition opt_status :: "string \<Rightarrow> string option \<times> string" where
  \<comment> \<open>\<^verbatim>\<open>(-\S*)?\<close>: the group (with its dash) when it takes part, and the rest\<close>
  "opt_status s =
     (case s of
        [] \<Rightarrow> (None, s)
      | c # r \<Rightarrow>
          if c = CHR ''-''
          then (Some (c # takeWhile (\<lambda>x. \<not> is_space x) r), dropWhile (\<lambda>x. \<not> is_space x) r)
          else (None, s))"

definition at_end :: "string \<Rightarrow> bool" where
  \<comment> \<open>\<^verbatim>\<open>$\<close> without MULTILINE: at the end of the string, or just before a newline that
      ends the string\<close>
  "at_end s = (s = [] \<or> s = [CHR 0x0A])"

definition re_match_version ::
  "string \<Rightarrow> (string \<times> string \<times> string \<times> string option \<times> string option) option" where
  \<comment> \<open>the five groups of a match, \<open>None\<close> when \<^verbatim>\<open>re.match\<close> returns None\<close>
  "re_match_version s =
     (case digits1 s of None \<Rightarrow> None | Some (g1, s1) \<Rightarrow>
     (case period s1 of None \<Rightarrow> None | Some s2 \<Rightarrow>
     (case digits1 s2 of None \<Rightarrow> None | Some (g2, s3) \<Rightarrow>
     (case period s3 of None \<Rightarrow> None | Some s4 \<Rightarrow>
     (case digits1 s4 of None \<Rightarrow> None | Some (g3, s5) \<Rightarrow>
     (case opt_patch s5 of (g4, s6) \<Rightarrow>
     (case opt_status s6 of (g5, s7) \<Rightarrow>
        if at_end s7 then Some (g1, g2, g3, g4, g5) else None)))))))"

subsection \<open>Version.__init__ and Version.__str__\<close>

definition Version_init :: "string \<Rightarrow> error + Version" where
  \<comment> \<open>\<^verbatim>\<open>if patch:\<close> and \<^verbatim>\<open>if status:\<close> test a group that took part: such a group
      holds at least its period or dash, so it is never the empty string\<close>
  "Version_init vstr =
     (case re_match_version vstr of
        Some (major_g, minor_g, micro_g, patch_g, status_g) \<Rightarrow>
          Inr \<lparr> version_str = vstr,
                major = int_of_digits major_g,
                minor = int_of_digits minor_g,
                micro = int_of_digits micro_g,
                patch = map_option (\<lambda>p. int_of_digits (drop 1 p)) patch_g,
                status = map_option (drop 1) status_g \<rparr>
      | None \<Rightarrow> Inl (ValueError (malformed_message vstr)))"

definition Version_str :: "Version \<Rightarrow> string" where
  "Version_str self = version_str self"

subsection \<open>VersionRequirements and the values a Version is compared with\<close>

record VersionRequirements =
  rules :: "(Version \<Rightarrow> bool) list"

datatype pyobj =
    VersionObj Version
  | RequirementsObj VersionRequirements
  | NoneObj
  | IntObj int
  | StrObj string

subsection \<open>Version.__cmp__\<close>

fun max0 :: "int option \<Rightarrow> int" where
  \<comment> \<open>\<^verbatim>\<open>max(0, x)\<close>: Python 2 orders None below every number\<close>
  "max0 None = 0"
| "max0 (Some x) = max 0 x"

fun cmp_attrs :: "(Version \<Rightarrow> int option) list \<Rightarrow> Version \<Rightarrow> Version \<Rightarrow> int" where
  \<comment> \<open>the loop over the attributes; falling out of it returns 0\<close>
  "cmp_attrs [] self other = 0"
| "cmp_attrs (attr # attrs) self other =
     (let my_version = max0 (attr self); other_version = max0 (attr other)
      in if my_version > other_version then 1
         else if my_version < other_version then - 1
         else cmp_attrs attrs self other)"

definition Version_cmp :: "Version \<Rightarrow> pyobj \<Rightarrow> int" where
  \<comment> \<open>\<^verbatim>\<open>my_status\<close> and \<^verbatim>\<open>other_status\<close> are computed after the loop and never used\<close>
  "Version_cmp self other =
     (case other of
        VersionObj other_version \<Rightarrow>
          cmp_attrs [\<lambda>v. Some (major v), \<lambda>v. Some (minor v), \<lambda>v. Some (micro v), patch]
            self other_version
      | _ \<Rightarrow> 1)"

text \<open>
  Version is an old-style class without rich comparison methods, so Python 2 decides
  every comparison operator with a Version on the left by the sign of \<^verbatim>\<open>__cmp__\<close>.
\<close>

definition Version_lt :: "Version \<Rightarrow> pyobj \<Rightarrow> bool" where
  "Version_lt a b = (Version_cmp a b < 0)"

definition Version_le :: "Version \<Rightarrow> pyobj \<Rightarrow> bool" where
  "Version_le a b = (Version_cmp a b \<le> 0)"

definition Version_eq :: "Version \<Rightarrow> pyobj \<Rightarrow> bool" where
  "Version_eq a b = (Version_cmp a b = 0)"

definition Version_ge :: "Version \<Rightarrow> pyobj \<Rightarrow> bool" where
  "Version_ge a b = (Version_cmp a b \<ge> 0)"

definition Version_gt :: "Version \<Rightarrow> pyobj \<Rightarrow> bool" where
  "Version_gt a b = (Version_cmp a b > 0)"

subsection \<open>Version.meets_requirements\<close>

fun any_rule :: "(Version \<Rightarrow> bool) list \<Rightarrow> Version \<Rightarrow> bool" where
  \<comment> \<open>the loop over \<^verbatim>\<open>requirements.rules\<close>: the first rule that holds returns True,
      the end of the list returns False\<close>
  "any_rule [] self = False"
| "any_rule (rule # rest) self = (if rule self then True else any_rule rest self)"

definition meets_requirements :: "Version \<Rightarrow> pyobj \<Rightarrow> error + bool" where
  \<comment> \<open>a value that is neither a Version nor has a \<^verbatim>\<open>rules\<close> attribute raises\<close>
  "meets_requirements self requirements =
     (case requirements of
        VersionObj r \<Rightarrow> Inr (Version_ge self requirements)
      | RequirementsObj reqs \<Rightarrow> Inr (any_rule (rules reqs) self)
      | _ \<Rightarrow> Inl AttributeError)"

section \<open>The VersionRequirements class\<close>

text \<open>
  Each method appends one closure to \<^verbatim>\<open>self.rules\<close>; the model returns the updated
  object. Default arguments are passed explicitly: \<^verbatim>\<open>inclusive = True\<close>,
  \<^verbatim>\<open>from_inclusive = True\<close>, \<^verbatim>\<open>to_inclusive = False\<close>.
\<close>

definition greater_than :: "VersionRequirements \<Rightarrow> Version \<Rightarrow> bool \<Rightarrow> VersionRequirements" where
  "greater_than self version inclusive =
     (if inclusive
      then self\<lparr>rules := rules self @ [\<lambda>v. Version_le version (VersionObj v)]\<rparr>
      else self\<lparr>rules := rules self @ [\<lambda>v. Version_lt version (VersionObj v)]\<rparr>)"

definition less_than :: "VersionRequirements \<Rightarrow> Version \<Rightarrow> bool \<Rightarrow> VersionRequirements" where
  "less_than self version inclusive =
     (if inclusive
      then self\<lparr>rules := rules self @ [\<lambda>v. Version_ge version (VersionObj v)]\<rparr>
      else self\<lparr>rules := rules self @ [\<lambda>v. Version_gt version (VersionObj v)]\<rparr>)"

definition in_range ::
  "VersionRequirements \<Rightarrow> Version \<Rightarrow> Version \<Rightarrow> bool \<Rightarrow> bool \<Rightarrow> VersionRequirements" where
  \<comment> \<open>a chained comparison \<^verbatim>\<open>a <= v < b\<close> is \<^verbatim>\<open>a <= v and v < b\<close>\<close>
  "in_range self from_version to_version from_inclusive to_inclusive =
     (let new_rule =
        (if from_inclusive \<and> to_inclusive
         then (\<lambda>v. Version_le from_version (VersionObj v) \<and> Version_le v (VersionObj to_version))
         else if from_inclusive
         then (\<lambda>v. Version_le from_version (VersionObj v) \<and> Version_lt v (VersionObj to_version))
         else (\<lambda>v. Version_lt from_version (VersionObj v) \<and> Version_lt v (VersionObj to_version)))
      in self\<lparr>rules := rules self @ [new_rule]\<rparr>)"

definition VersionRequirements_init :: "Version option \<Rightarrow> VersionRequirements" where
  \<comment> \<open>\<^verbatim>\<open>if rule:\<close> holds for every Version: an instance of a class that defines neither
      \<^verbatim>\<open>__nonzero__\<close> nor \<^verbatim>\<open>__len__\<close> is true\<close>
  "VersionRequirements_init rule =
     (let self = \<lparr>rules = []\<rparr>
      in case rule of None \<Rightarrow> self | Some version \<Rightarrow> greater_than self version True)"

section \<open>The requirement of SAFECOOKIE authentication\<close>

definition safecookie_req :: "error + VersionRequirements" where
  \<comment> \<open>the three module-level statements; a constructor that raises would end the import\<close>
  "safecookie_req =
     (case Version_init ''0.2.2.36'' of Inl e \<Rightarrow> Inl e | Inr v_from \<Rightarrow>
     (case Version_init ''0.2.3.0'' of Inl e \<Rightarrow> Inl e | Inr v_to \<Rightarrow>
     (case Version_init ''0.2.3.13'' of Inl e \<Rightarrow> Inl e | Inr v_min \<Rightarrow>
        Inr (greater_than
               (in_range (VersionRequirements_init None) v_from v_to True False)
               v_min True))))"

section \<open>get_system_tor_version\<close>

text \<open>
  \<^verbatim>\<open>stem.util.system.call\<close> is outside this module: it is a parameter \<open>call\<close>, giving
  for a command line either the OSError it raises or the value it returns, a list of
  output lines or None. The module's state is the dictionary \<^verbatim>\<open>VERSION_CACHE\<close>;
  \<open>system_calls\<close> records, in order, the command lines passed to \<open>call\<close>.
\<close>

datatype call_outcome = Raises string | Returns "string list option"

record module_state =
  VERSION_CACHE :: "string \<rightharpoonup> Version"
  system_calls :: "string list"

definition cache_lookup :: "string \<Rightarrow> module_state \<Rightarrow> (error + Version) \<times> module_state" where
  \<comment> \<open>\<^verbatim>\<open>return VERSION_CACHE[tor_cmd]\<close>\<close>
  "cache_lookup tor_cmd st =
     (case VERSION_CACHE st tor_cmd of
        None \<Rightarrow> (Inl (KeyError tor_cmd), st)
      | Some v \<Rightarrow> (Inr v, st))"

definition get_system_tor_version ::
  "(string \<Rightarrow> call_outcome) \<Rightarrow> string \<Rightarrow> module_state \<Rightarrow> (error + Version) \<times> module_state" where
  "get_system_tor_version call tor_cmd st =
     (if tor_cmd \<notin> dom (VERSION_CACHE st) then
        (let version_cmd = tor_cmd @ '' --version'';
             st1 = st\<lparr>system_calls := system_calls st @ [version_cmd]\<rparr>
         in case call version_cmd of
              Raises exc \<Rightarrow> (Inl (IOError_of (OSError exc)), st1)
            | Returns version_output \<Rightarrow>
                (case version_output of
                   None \<Rightarrow> (Inl (IOError (no_output_message version_cmd)), st1)
                 | Some [] \<Rightarrow> (Inl (IOError (no_output_message version_cmd)), st1)
                 | Some (l # ls) \<Rightarrow>
                     (let last_line = last (l # ls)
                      in if startswith last_line ''Tor version '' \<and> endswith last_line ''.''
                         then
                           (let version_str =
                                  str_slice last_line 12 (str_find last_line (CHR '' '') 12)
                            in case Version_init version_str of
                                 Inr v \<Rightarrow>
                                   cache_lookup tor_cmd
                                     (st1\<lparr>VERSION_CACHE := (VERSION_CACHE st1)(tor_cmd \<mapsto> v)\<rparr>)
                               | Inl (ValueError msg) \<Rightarrow> (Inl (IOError_of (ValueError msg)), st1)
                               | Inl exc \<Rightarrow> (Inl exc, st1))
                         else (Inl (IOError (unexpected_message version_cmd last_line)), st1))))
      else cache_lookup tor_cmd st)"

section \<open>Notions of the specification\<close>

text \<open>
  The tuple of the specification's comparison, \<open>(major, minor, micro, patch-or-0)\<close>,
  ordered lexicographically by the order of products.
\<close>

definition version_tuple :: "Version \<Rightarrow> int \<times> int \<times> int \<times> int" where
  "version_tuple v = (major v, minor v, micro v, (case patch v of None \<Rightarrow> 0 | Some p \<Rightarrow> p))"

definition clamped_tuple :: "Version \<Rightarrow> int \<times> int \<times> int \<times> int" where
  \<comment> \<open>the values \<^verbatim>\<open>__cmp__\<close> compares, for any field values\<close>
  "clamped_tuple v =
     (max0 (Some (major v)), max0 (Some (minor v)), max0 (Some (micro v)), max0 (patch v))"

text \<open>
  The grammar \<open>major.minor.micro[.patch][-status]\<close>, stated by the parts a string is
  put together from: \<open>number\<close> is a non-empty run of decimal digits, \<open>nonblank\<close> a run
  of characters none of which is white space; the patch and the status are optional.
  \<open>grammar_as_claimed\<close> asks for a non-empty status after the dash, as the
  specification does; \<open>grammar_as_coded\<close> lets the status be empty.
\<close>

definition number :: "string \<Rightarrow> bool" where
  "number d = (d \<noteq> [] \<and> list_all is_digit d)"

definition nonblank :: "string \<Rightarrow> bool" where
  "nonblank t = list_all (\<lambda>c. \<not> is_space c) t"

definition assemble ::
  "string \<Rightarrow> string \<Rightarrow> string \<Rightarrow> string option \<Rightarrow> string option \<Rightarrow> string" where
  "assemble a b c po so =
     a @ ''.'' @ b @ ''.'' @ c @
     (case po of None \<Rightarrow> [] | Some p \<Rightarrow> ''.'' @ p) @
     (case so of None \<Rightarrow> [] | Some t \<Rightarrow> ''-'' @ t)"

definition well_formed_parts ::
  "string \<Rightarrow> string \<Rightarrow> string \<Rightarrow> string option \<Rightarrow> string option \<Rightarrow> bool" where
  "well_formed_parts a b c po so =
     (number a \<and> number b \<and> number c \<and>
      (case po of None \<Rightarrow> True | Some p \<Rightarrow> number p) \<and>
      (case so of None \<Rightarrow> True | Some t \<Rightarrow> nonblank t))"

definition grammar_as_claimed :: "string \<Rightarrow> bool" where
  "grammar_as_claimed s =
     (\<exists>a b c po so. well_formed_parts a b c po so \<and> so \<noteq> Some [] \<and> s = assemble a b c po so)"

definition grammar_as_coded :: "string \<Rightarrow> bool" where
  "grammar_as_coded s =
     (\<exists>a b c po so. well_formed_parts a b c po so \<and> s = assemble a b c po so)"

text \<open>
  The version token of an output line that starts with the 12 characters of
  \<open>''Tor version ''\<close>: what follows them up to the first space, and when no space
  follows, all that follows but its last character.
\<close>

definition version_token :: "string \<Rightarrow> string" where
  "version_token last_line =
     (if CHR '' '' \<in> set (drop 12 last_line)
      then takeWhile (\<lambda>c. c \<noteq> CHR '' '') (drop 12 last_line)
      else butlast (drop 12 last_line))"

section \<open>Evaluation and auxiliary facts\<close>

lemmas regex_defs = re_match_version_def digits1_def period_def opt_patch_def opt_status_def
  at_end_def is_digit_def is_space_def Let_def

lemmas parse_defs = Version_init_def regex_defs int_of_digits_def

subsection \<open>The comparison as an order on tuples\<close>

lemma lex4:
  fixes a1 a2 a3 a4 b1 b2 b3 b4 :: int
  shows "(if a1 > b1 then 1 else if a1 < b1 then - 1
          else if a2 > b2 then 1 else if a2 < b2 then - 1
          else if a3 > b3 then 1 else if a3 < b3 then - 1
          else if a4 > b4 then 1 else if a4 < b4 then - 1 else (0::int)) =
         (if (a1, a2, a3, a4) < (b1, b2, b3, b4) then - 1
          else if (a1, a2, a3, a4) = (b1, b2, b3, b4) then 0 else 1)"
  by (simp add: less_le_not_le)

lemma cmp_attrs4:
  "cmp_attrs [f1, f2, f3, f4] a b =
     (if max0 (f1 a) > max0 (f1 b) then 1 else if max0 (f1 a) < max0 (f1 b) then - 1
      else if max0 (f2 a) > max0 (f2 b) then 1 else if max0 (f2 a) < max0 (f2 b) then - 1
      else if max0 (f3 a) > max0 (f3 b) then 1 else if max0 (f3 a) < max0 (f3 b) then - 1
      else if max0 (f4 a) > max0 (f4 b) then 1 else if max0 (f4 a) < max0 (f4 b) then - 1
      else 0)"
  by (simp add: Let_def)

lemma Version_cmp_clamped:
  "Version_cmp a (VersionObj b) =
     (if clamped_tuple a < clamped_tuple b then - 1
      else if clamped_tuple a = clamped_tuple b then 0 else 1)"
  unfolding Version_cmp_def clamped_tuple_def pyobj.case cmp_attrs4 by (rule lex4)

lemma Version_cmp_flip:
  "Version_cmp a (VersionObj b) \<le> 0 \<longleftrightarrow> Version_cmp b (VersionObj a) \<ge> 0"
  unfolding Version_cmp_clamped
  by (cases "clamped_tuple a" "clamped_tuple b" rule: linorder_cases) auto

lemma clamped_tuple_status [simp]: "clamped_tuple (v\<lparr>status := x\<rparr>) = clamped_tuple v"
  by (simp add: clamped_tuple_def)

subsection \<open>What a match of the regular expression consists of\<close>

lemma is_digit_value: "is_digit c \<Longrightarrow> (48::int) \<le> of_char c"
  by (auto simp: is_digit_def)

lemma foldl_digits_nonneg:
  "0 \<le> acc \<Longrightarrow> list_all is_digit s \<Longrightarrow>
   0 \<le> foldl (\<lambda>acc c. 10 * acc + (of_char c - 48)) (acc::int) s"
proof (induction s arbitrary: acc)
  case Nil
  then show ?case by simp
next
  case (Cons c s)
  from Cons.prems have "0 \<le> 10 * acc + (of_char c - 48)"
    using is_digit_value [of c] by simp
  with Cons show ?case by simp
qed

lemma int_of_digits_nonneg: "number s \<Longrightarrow> 0 \<le> int_of_digits s"
  by (simp add: int_of_digits_def number_def foldl_digits_nonneg)

lemma digits1_Some: "digits1 s = Some (d, r) \<Longrightarrow> number d \<and> s = d @ r"
  by (auto simp: digits1_def number_def Let_def list_all_iff split: if_splits dest: set_takeWhileD)

lemma period_Some: "period s = Some r \<Longrightarrow> s = CHR ''.'' # r"
  by (auto simp: period_def split: list.splits if_splits)

lemma opt_patch_cases:
  "opt_patch s = (g, r) \<Longrightarrow>
     (g = None \<and> r = s) \<or> (\<exists>d. g = Some (CHR ''.'' # d) \<and> number d \<and> s = CHR ''.'' # d @ r)"
  by (auto simp: opt_patch_def split: option.splits dest!: digits1_Some period_Some)

lemma opt_status_cases:
  "opt_status s = (g, r) \<Longrightarrow>
     (g = None \<and> r = s) \<or> (\<exists>t. g = Some (CHR ''-'' # t) \<and> nonblank t \<and> s = CHR ''-'' # t @ r)"
  by (auto simp: opt_status_def nonblank_def list_all_iff split: list.splits if_splits
           dest: set_takeWhileD)

lemma re_match_version_SomeE:
  assumes "re_match_version s = Some (g1, g2, g3, g4, g5)"
  obtains s1 s2 s3 s4 s5 s6 s7 where
    "digits1 s = Some (g1, s1)" "period s1 = Some s2"
    "digits1 s2 = Some (g2, s3)" "period s3 = Some s4"
    "digits1 s4 = Some (g3, s5)" "opt_patch s5 = (g4, s6)"
    "opt_status s6 = (g5, s7)" "at_end s7"
  using assms
  by (auto simp: re_match_version_def split: option.splits prod.splits if_splits)

lemma Version_init_InrE:
  assumes "Version_init s = Inr v"
  obtains g1 g2 g3 g4 g5 where
    "re_match_version s = Some (g1, g2, g3, g4, g5)"
    "v = \<lparr> version_str = s, major = int_of_digits g1, minor = int_of_digits g2,
           micro = int_of_digits g3,
           patch = map_option (\<lambda>p. int_of_digits (drop 1 p)) g4,
           status = map_option (drop 1) g5 \<rparr>"
  using assms by (auto simp: Version_init_def split: option.splits)

lemma Version_init_nonneg:
  assumes "Version_init s = Inr v"
  shows "0 \<le> major v \<and> 0 \<le> minor v \<and> 0 \<le> micro v \<and> (\<forall>p. patch v = Some p \<longrightarrow> 0 \<le> p)"
proof -
  from assms obtain g1 g2 g3 g4 g5 where
    m: "re_match_version s = Some (g1, g2, g3, g4, g5)" and
    v: "v = \<lparr> version_str = s, major = int_of_digits g1, minor = int_of_digits g2,
           micro = int_of_digits g3,
           patch = map_option (\<lambda>p. int_of_digits (drop 1 p)) g4,
           status = map_option (drop 1) g5 \<rparr>"
    by (rule Version_init_InrE)
  from m obtain s1 s2 s3 s4 s5 s6 s7 where
    d: "digits1 s = Some (g1, s1)" "digits1 s2 = Some (g2, s3)" "digits1 s4 = Some (g3, s5)"
    and p: "opt_patch s5 = (g4, s6)"
    and rest: "period s1 = Some s2" "period s3 = Some s4" "opt_status s6 = (g5, s7)" "at_end s7"
    by (rule re_match_version_SomeE)
  from d have n: "number g1" "number g2" "number g3"
    by (auto dest: digits1_Some)
  have "\<forall>x. g4 = Some x \<longrightarrow> number (drop 1 x)"
    using opt_patch_cases [OF p] by auto
  with n v show ?thesis
    by (auto simp: int_of_digits_nonneg)
qed

lemma clamped_tuple_parsed:
  assumes "Version_init s = Inr v"
  shows "clamped_tuple v = version_tuple v"
  using Version_init_nonneg [OF assms]
  by (cases "patch v") (simp_all add: clamped_tuple_def version_tuple_def)

subsection \<open>The loop over the rules\<close>

lemma any_rule_iff: "any_rule rs v \<longleftrightarrow> (\<exists>rule \<in> set rs. rule v)"
  by (induction rs) auto

section \<open>Version.__str__\<close>

text \<open>
  C5. For every string the constructor accepts, the string conversion of the constructed
  Version gives back that string, character for character.
\<close>

theorem Version_str_roundtrip:
  assumes "Version_init s = Inr v"
  shows "Version_str v = s"
  using assms by (auto simp: Version_str_def elim: Version_init_InrE)

theorem Version_str_roundtrip_witness:
  "Version_init ''0.2.2.23-alpha'' =
     Inr \<lparr> version_str = ''0.2.2.23-alpha'', major = 0, minor = 2, micro = 2,
           patch = Some 23, status = Some ''alpha'' \<rparr> \<and>
   Version_str \<lparr> version_str = ''0.2.2.23-alpha'', major = 0, minor = 2, micro = 2,
                 patch = Some 23, status = Some ''alpha'' \<rparr> = ''0.2.2.23-alpha''"
proof -
  have h: "Version_init ''0.2.2.23-alpha'' =
     Inr \<lparr> version_str = ''0.2.2.23-alpha'', major = 0, minor = 2, micro = 2,
           patch = Some 23, status = Some ''alpha'' \<rparr>"
    by (simp add: parse_defs)
  show ?thesis using h Version_str_roundtrip [OF h] by simp
qed

section \<open>Version.__cmp__\<close>

text \<open>
  C4. For two Versions made by the constructor, the comparison is the lexicographic
  comparison of the tuples (major, minor, micro, patch-or-0), an absent patch counting as
  0: it is -1, 0 or 1 as the first tuple is below, equal to or above the second. Exactly
  one of \<open>a < b\<close>, \<open>a == b\<close>, \<open>a > b\<close> holds, and replacing the status of either
  Version by any other value leaves the result unchanged.
\<close>

theorem Version_cmp_lexicographic:
  assumes "Version_init s = Inr a" and "Version_init t = Inr b"
  shows "Version_cmp a (VersionObj b) =
           (if version_tuple a < version_tuple b then - 1
            else if version_tuple a = version_tuple b then 0 else 1) \<and>
         (Version_lt a (VersionObj b) \<and> \<not> Version_eq a (VersionObj b) \<and> \<not> Version_gt a (VersionObj b) \<or>
          \<not> Version_lt a (VersionObj b) \<and> Version_eq a (VersionObj b) \<and> \<not> Version_gt a (VersionObj b) \<or>
          \<not> Version_lt a (VersionObj b) \<and> \<not> Version_eq a (VersionObj b) \<and> Version_gt a (VersionObj b)) \<and>
         (\<forall>x y. Version_cmp (a\<lparr>status := x\<rparr>) (VersionObj (b\<lparr>status := y\<rparr>)) =
                Version_cmp a (VersionObj b))"
proof -
  have ta: "clamped_tuple a = version_tuple a" and tb: "clamped_tuple b = version_tuple b"
    using assms by (simp_all add: clamped_tuple_parsed)
  have 1: "Version_cmp a (VersionObj b) =
           (if version_tuple a < version_tuple b then - 1
            else if version_tuple a = version_tuple b then 0 else 1)"
    using Version_cmp_clamped [of a b] by (simp only: ta tb)
  have 2: "Version_lt a (VersionObj b) \<and> \<not> Version_eq a (VersionObj b) \<and> \<not> Version_gt a (VersionObj b) \<or>
          \<not> Version_lt a (VersionObj b) \<and> Version_eq a (VersionObj b) \<and> \<not> Version_gt a (VersionObj b) \<or>
          \<not> Version_lt a (VersionObj b) \<and> \<not> Version_eq a (VersionObj b) \<and> Version_gt a (VersionObj b)"
    unfolding Version_lt_def Version_eq_def Version_gt_def by linarith
  have 3: "\<forall>x y. Version_cmp (a\<lparr>status := x\<rparr>) (VersionObj (b\<lparr>status := y\<rparr>)) =
                Version_cmp a (VersionObj b)"
    by (simp add: Version_cmp_clamped)
  from 1 2 3 show ?thesis by blast
qed

theorem Version_cmp_lexicographic_witness:
  "Version_init ''1.2.3-alpha'' =
     Inr \<lparr> version_str = ''1.2.3-alpha'', major = 1, minor = 2, micro = 3,
           patch = None, status = Some ''alpha'' \<rparr> \<and>
   Version_init ''1.2.3-beta'' =
     Inr \<lparr> version_str = ''1.2.3-beta'', major = 1, minor = 2, micro = 3,
           patch = None, status = Some ''beta'' \<rparr> \<and>
   Version_cmp
     \<lparr> version_str = ''1.2.3-alpha'', major = 1, minor = 2, micro = 3,
       patch = None, status = Some ''alpha'' \<rparr>
     (VersionObj \<lparr> version_str = ''1.2.3-beta'', major = 1, minor = 2, micro = 3,
                  patch = None, status = Some ''beta'' \<rparr>) = 0 \<and>
   Version_eq
     \<lparr> version_str = ''1.2.3-alpha'', major = 1, minor = 2, micro = 3,
       patch = None, status = Some ''alpha'' \<rparr>
     (VersionObj \<lparr> version_str = ''1.2.3-beta'', major = 1, minor = 2, micro = 3,
                  patch = None, status = Some ''beta'' \<rparr>)"
proof -
  have h1: "Version_init ''1.2.3-alpha'' =
     Inr \<lparr> version_str = ''1.2.3-alpha'', major = 1, minor = 2, micro = 3,
           patch = None, status = Some ''alpha'' \<rparr>"
    by (simp add: parse_defs)
  have h2: "Version_init ''1.2.3-beta'' =
     Inr \<lparr> version_str = ''1.2.3-beta'', major = 1, minor = 2, micro = 3,
           patch = None, status = Some ''beta'' \<rparr>"
    by (simp add: parse_defs)
  show ?thesis
    using h1 h2 Version_cmp_lexicographic [OF h1 h2]
    by (simp add: version_tuple_def Version_eq_def)
qed

text \<open>
  C9. A Version is never equal to a value that is not a Version: the comparison answers 1
  for it.
\<close>

theorem Version_eq_non_version:
  "(\<forall>w. x \<noteq> VersionObj w) \<longrightarrow> \<not> Version_eq v x \<and> Version_cmp v x = 1"
  by (cases x) (simp_all add: Version_eq_def Version_cmp_def)

theorem Version_eq_non_version_witness:
  "(\<forall>w. StrObj ''0.2.1.30'' \<noteq> VersionObj w) \<and>
   \<not> Version_eq \<lparr> version_str = ''0.2.1.30'', major = 0, minor = 2, micro = 1,
                   patch = Some 30, status = None \<rparr> (StrObj ''0.2.1.30'')"
  using Version_eq_non_version
    [of "StrObj ''0.2.1.30''"
        "\<lparr> version_str = ''0.2.1.30'', major = 0, minor = 2, micro = 1,
           patch = Some 30, status = None \<rparr>"]
  by simp

section \<open>Version.meets_requirements and VersionRequirements\<close>

lemma in_range_rule:
  "any_rule (rules (in_range \<lparr>rules = []\<rparr> low high from_inclusive to_inclusive)) v =
     ((if from_inclusive then Version_le low (VersionObj v) else Version_lt low (VersionObj v)) \<and>
      (if from_inclusive \<and> to_inclusive then Version_le v (VersionObj high)
       else Version_lt v (VersionObj high)))"
  by (simp add: in_range_def)

text \<open>
  C6. Against a single Version, \<open>meets_requirements\<close> answers whether the candidate is
  greater than or equal to it, which for Versions made by the constructor is the order
  of their tuples. Against a VersionRequirements it answers whether some rule of the set
  holds for the candidate, and so False for a set without rules.
\<close>

theorem meets_requirements_cases:
  assumes "Version_init s = Inr candidate" and "Version_init t = Inr r"
  shows "meets_requirements candidate (VersionObj r) = Inr (Version_ge candidate (VersionObj r)) \<and>
         Version_ge candidate (VersionObj r) = (version_tuple r \<le> version_tuple candidate) \<and>
         meets_requirements candidate (RequirementsObj reqs) =
           Inr (\<exists>rule \<in> set (rules reqs). rule candidate) \<and>
         meets_requirements candidate (RequirementsObj \<lparr>rules = []\<rparr>) = Inr False"
proof -
  have tc: "clamped_tuple candidate = version_tuple candidate"
    and tr: "clamped_tuple r = version_tuple r"
    using assms by (simp_all add: clamped_tuple_parsed)
  have "Version_ge candidate (VersionObj r) = (clamped_tuple r \<le> clamped_tuple candidate)"
    unfolding Version_ge_def Version_cmp_clamped
    by (cases "clamped_tuple candidate" "clamped_tuple r" rule: linorder_cases) auto
  then have "Version_ge candidate (VersionObj r) = (version_tuple r \<le> version_tuple candidate)"
    by (simp only: tc tr)
  then show ?thesis
    by (simp add: meets_requirements_def any_rule_iff)
qed

theorem meets_requirements_cases_witness:
  "Version_init ''0.2.2.7'' =
     Inr \<lparr> version_str = ''0.2.2.7'', major = 0, minor = 2, micro = 2,
           patch = Some 7, status = None \<rparr> \<and>
   Version_init ''0.2.2.6'' =
     Inr \<lparr> version_str = ''0.2.2.6'', major = 0, minor = 2, micro = 2,
           patch = Some 6, status = None \<rparr> \<and>
   meets_requirements
     \<lparr> version_str = ''0.2.2.7'', major = 0, minor = 2, micro = 2, patch = Some 7, status = None \<rparr>
     (VersionObj \<lparr> version_str = ''0.2.2.7'', major = 0, minor = 2, micro = 2,
                  patch = Some 7, status = None \<rparr>) = Inr True \<and>
   meets_requirements
     \<lparr> version_str = ''0.2.2.6'', major = 0, minor = 2, micro = 2, patch = Some 6, status = None \<rparr>
     (VersionObj \<lparr> version_str = ''0.2.2.7'', major = 0, minor = 2, micro = 2,
                  patch = Some 7, status = None \<rparr>) = Inr False \<and>
   meets_requirements
     \<lparr> version_str = ''0.2.2.7'', major = 0, minor = 2, micro = 2, patch = Some 7, status = None \<rparr>
     (RequirementsObj \<lparr>rules = []\<rparr>) = Inr False"
proof -
  have h7: "Version_init ''0.2.2.7'' =
     Inr \<lparr> version_str = ''0.2.2.7'', major = 0, minor = 2, micro = 2,
           patch = Some 7, status = None \<rparr>"
    by (simp add: parse_defs)
  have h6: "Version_init ''0.2.2.6'' =
     Inr \<lparr> version_str = ''0.2.2.6'', major = 0, minor = 2, micro = 2,
           patch = Some 6, status = None \<rparr>"
    by (simp add: parse_defs)
  show ?thesis
    using h7 h6 meets_requirements_cases [OF h7 h7, of "\<lparr>rules = []\<rparr>"]
      meets_requirements_cases [OF h6 h7, of "\<lparr>rules = []\<rparr>"]
    by (simp add: version_tuple_def)
qed

text \<open>
  C10. A VersionRequirements constructed with a Version holds one rule and is met by the
  same candidates as an empty VersionRequirements to which \<open>greater_than\<close> of that
  Version, inclusive, was added: those that are greater than or equal to the Version.
\<close>

theorem VersionRequirements_init_rule:
  "meets_requirements candidate (RequirementsObj (VersionRequirements_init (Some version))) =
     meets_requirements candidate
       (RequirementsObj (greater_than (VersionRequirements_init None) version True)) \<and>
   meets_requirements candidate (RequirementsObj (VersionRequirements_init (Some version))) =
     Inr (Version_ge candidate (VersionObj version)) \<and>
   length (rules (VersionRequirements_init (Some version))) = 1"
  by (simp add: meets_requirements_def VersionRequirements_init_def greater_than_def
        Version_le_def Version_ge_def Version_cmp_flip)

theorem VersionRequirements_init_rule_witness:
  "meets_requirements
     \<lparr> version_str = ''0.2.2.6'', major = 0, minor = 2, micro = 2, patch = Some 6, status = None \<rparr>
     (RequirementsObj (VersionRequirements_init
        (Some \<lparr> version_str = ''0.2.2.7'', major = 0, minor = 2, micro = 2,
                patch = Some 7, status = None \<rparr>))) = Inr False \<and>
   meets_requirements
     \<lparr> version_str = ''0.2.2.7'', major = 0, minor = 2, micro = 2, patch = Some 7, status = None \<rparr>
     (RequirementsObj (VersionRequirements_init
        (Some \<lparr> version_str = ''0.2.2.7'', major = 0, minor = 2, micro = 2,
                patch = Some 7, status = None \<rparr>))) = Inr True"
proof -
  have low: "meets_requirements
     \<lparr> version_str = ''0.2.2.6'', major = 0, minor = 2, micro = 2, patch = Some 6, status = None \<rparr>
     (RequirementsObj (VersionRequirements_init
        (Some \<lparr> version_str = ''0.2.2.7'', major = 0, minor = 2, micro = 2,
                patch = Some 7, status = None \<rparr>))) =
     Inr (Version_ge
       \<lparr> version_str = ''0.2.2.6'', major = 0, minor = 2, micro = 2, patch = Some 6, status = None \<rparr>
       (VersionObj \<lparr> version_str = ''0.2.2.7'', major = 0, minor = 2, micro = 2,
                patch = Some 7, status = None \<rparr>))"
    using VersionRequirements_init_rule by blast
  have same: "meets_requirements
     \<lparr> version_str = ''0.2.2.7'', major = 0, minor = 2, micro = 2, patch = Some 7, status = None \<rparr>
     (RequirementsObj (VersionRequirements_init
        (Some \<lparr> version_str = ''0.2.2.7'', major = 0, minor = 2, micro = 2,
                patch = Some 7, status = None \<rparr>))) =
     Inr (Version_ge
       \<lparr> version_str = ''0.2.2.7'', major = 0, minor = 2, micro = 2, patch = Some 7, status = None \<rparr>
       (VersionObj \<lparr> version_str = ''0.2.2.7'', major = 0, minor = 2, micro = 2,
                patch = Some 7, status = None \<rparr>))"
    using VersionRequirements_init_rule by blast
  show ?thesis
    unfolding low same by (simp add: Version_ge_def Version_cmp_def)
qed

text \<open>
  C8. The requirement of SAFECOOKIE authentication is met by 0.2.2.40 and by 0.2.4.0, and
  is met neither by 0.2.3.0 nor by 0.2.3.5.
\<close>

theorem safecookie_req_examples:
  "map (\<lambda>s. case (safecookie_req, Version_init s) of
              (Inr req, Inr v) \<Rightarrow> meets_requirements v (RequirementsObj req)
            | (Inl e, _) \<Rightarrow> Inl e
            | (_, Inl e) \<Rightarrow> Inl e)
       [''0.2.2.40'', ''0.2.4.0'', ''0.2.3.0'', ''0.2.3.5''] =
   [Inr True, Inr True, Inr False, Inr False]"
  by (simp add: safecookie_req_def parse_defs meets_requirements_def greater_than_def
        in_range_def VersionRequirements_init_def Version_le_def Version_lt_def Version_cmp_def)

text \<open>
  C2. Evaluation of \<open>in_range\<close> with \<open>from_inclusive = False\<close> and
  \<open>to_inclusive = True\<close> on the candidate 0.2.3.0 for the bounds 0.2.2.36 and 0.2.3.0:
  the lower bound is below the candidate and the candidate is at most the upper bound,
  yet the rule does not hold.
\<close>

theorem in_range_exclusive_inclusive_evaluation:
  "(case (Version_init ''0.2.2.36'', Version_init ''0.2.3.0'') of
      (Inr low, Inr high) \<Rightarrow>
        (Version_lt low (VersionObj high), Version_le high (VersionObj high),
         meets_requirements high
           (RequirementsObj (in_range (VersionRequirements_init None) low high False True)))
    | (Inl e, _) \<Rightarrow> (False, False, Inl e)
    | (_, Inl e) \<Rightarrow> (False, False, Inl e)) =
   (True, True, Inr False)"
  by (simp add: parse_defs meets_requirements_def in_range_def VersionRequirements_init_def
        Version_le_def Version_lt_def Version_cmp_def)

section \<open>The strings the constructor accepts\<close>

subsection \<open>From the parts to the match\<close>

lemma digits1_exact: "number d \<Longrightarrow> digits1 d = Some (d, [])"
proof -
  assume n: "number d"
  then have t: "takeWhile is_digit d = d" and r: "dropWhile is_digit d = []"
    by (simp_all add: number_def list_all_iff)
  from n have "d \<noteq> []" by (simp add: number_def)
  then show ?thesis unfolding digits1_def Let_def t r by simp
qed

lemma digits1_append: "number d \<Longrightarrow> \<not> is_digit x \<Longrightarrow> digits1 (d @ x # r) = Some (d, x # r)"
proof -
  assume n: "number d" and x: "\<not> is_digit x"
  then have t: "takeWhile is_digit (d @ x # r) = d"
    and r: "dropWhile is_digit (d @ x # r) = x # r"
    by (simp_all add: number_def list_all_iff)
  from n have "d \<noteq> []" by (simp add: number_def)
  then show ?thesis unfolding digits1_def Let_def t r by simp
qed

lemma period_Cons: "period (CHR ''.'' # r) = Some r"
  by (simp add: period_def)

lemma opt_patch_append:
  "number p \<Longrightarrow> \<not> is_digit x \<Longrightarrow> opt_patch (CHR ''.'' # p @ x # r) = (Some (CHR ''.'' # p), x # r)"
  by (simp add: opt_patch_def period_Cons digits1_append)

lemma opt_patch_exact: "number p \<Longrightarrow> opt_patch (CHR ''.'' # p) = (Some (CHR ''.'' # p), [])"
  by (simp add: opt_patch_def period_Cons digits1_exact)

lemma opt_patch_skip: "x \<noteq> CHR ''.'' \<Longrightarrow> opt_patch (x # r) = (None, x # r)"
  by (simp add: opt_patch_def period_def)

lemma opt_patch_Nil: "opt_patch [] = (None, [])"
  by (simp add: opt_patch_def period_def)

lemma opt_status_append:
  "nonblank t \<Longrightarrow> is_space x \<Longrightarrow> opt_status (CHR ''-'' # t @ x # r) = (Some (CHR ''-'' # t), x # r)"
  by (simp add: opt_status_def nonblank_def list_all_iff)

lemma opt_status_exact: "nonblank t \<Longrightarrow> opt_status (CHR ''-'' # t) = (Some (CHR ''-'' # t), [])"
  by (simp add: opt_status_def nonblank_def list_all_iff)

lemma opt_status_skip: "x \<noteq> CHR ''-'' \<Longrightarrow> opt_status (x # r) = (None, x # r)"
  by (simp add: opt_status_def)

lemma opt_status_Nil: "opt_status [] = (None, [])"
  by (simp add: opt_status_def)

lemma separators:
  "\<not> is_digit (CHR ''.'')" "\<not> is_digit (CHR ''-'')" "\<not> is_digit (CHR 0x0A)" "is_space (CHR 0x0A)"
  by (simp_all add: is_digit_def is_space_def)

lemma tail_match:
  assumes "case po of None \<Rightarrow> True | Some p \<Rightarrow> number p"
      and "case so of None \<Rightarrow> True | Some t \<Rightarrow> nonblank t"
      and "nl = [] \<or> nl = [CHR 0x0A]"
  shows "opt_patch ((case po of None \<Rightarrow> [] | Some p \<Rightarrow> ''.'' @ p) @
                    (case so of None \<Rightarrow> [] | Some t \<Rightarrow> ''-'' @ t) @ nl) =
           (map_option ((#) CHR ''.'') po, (case so of None \<Rightarrow> [] | Some t \<Rightarrow> ''-'' @ t) @ nl)"
    and "opt_status ((case so of None \<Rightarrow> [] | Some t \<Rightarrow> ''-'' @ t) @ nl) =
           (map_option ((#) CHR ''-'') so, nl)"
    and "at_end nl"
proof -
  show "at_end nl" using assms(3) by (auto simp: at_end_def)
  show "opt_status ((case so of None \<Rightarrow> [] | Some t \<Rightarrow> ''-'' @ t) @ nl) =
           (map_option ((#) CHR ''-'') so, nl)"
    using assms(2,3)
    by (cases so)
       (auto simp: opt_status_Nil opt_status_skip opt_status_exact opt_status_append separators)
  show "opt_patch ((case po of None \<Rightarrow> [] | Some p \<Rightarrow> ''.'' @ p) @
                    (case so of None \<Rightarrow> [] | Some t \<Rightarrow> ''-'' @ t) @ nl) =
           (map_option ((#) CHR ''.'') po, (case so of None \<Rightarrow> [] | Some t \<Rightarrow> ''-'' @ t) @ nl)"
    using assms(1,3)
    by (cases po; cases so)
       (auto simp: opt_patch_Nil opt_patch_skip opt_patch_exact opt_patch_append separators)
qed

lemma third_number:
  assumes "number c" and "nl = [] \<or> nl = [CHR 0x0A]"
  shows "digits1 (c @ (case po of None \<Rightarrow> [] | Some p \<Rightarrow> ''.'' @ p) @
                    (case so of None \<Rightarrow> [] | Some t \<Rightarrow> ''-'' @ t) @ nl) =
           Some (c, (case po of None \<Rightarrow> [] | Some p \<Rightarrow> ''.'' @ p) @
                    (case so of None \<Rightarrow> [] | Some t \<Rightarrow> ''-'' @ t) @ nl)"
  using assms
  by (cases po; cases so) (auto simp: digits1_exact digits1_append separators)

lemma re_match_version_assemble:
  assumes "well_formed_parts a b c po so" and "nl = [] \<or> nl = [CHR 0x0A]"
  shows "re_match_version (assemble a b c po so @ nl) =
           Some (a, b, c, map_option ((#) CHR ''.'') po, map_option ((#) CHR ''-'') so)"
proof -
  let ?tail = "(case po of None \<Rightarrow> [] | Some p \<Rightarrow> ''.'' @ p) @
               (case so of None \<Rightarrow> [] | Some t \<Rightarrow> ''-'' @ t) @ nl"
  from assms(1) have n: "number a" "number b" "number c"
    and po: "case po of None \<Rightarrow> True | Some p \<Rightarrow> number p"
    and so: "case so of None \<Rightarrow> True | Some t \<Rightarrow> nonblank t"
    by (simp_all add: well_formed_parts_def)
  have s: "assemble a b c po so @ nl = a @ CHR ''.'' # b @ CHR ''.'' # c @ ?tail"
    by (simp add: assemble_def)
  have 1: "digits1 (a @ CHR ''.'' # b @ CHR ''.'' # c @ ?tail) =
             Some (a, CHR ''.'' # b @ CHR ''.'' # c @ ?tail)"
    using n(1) by (rule digits1_append) (rule separators)
  have 2: "digits1 (b @ CHR ''.'' # c @ ?tail) = Some (b, CHR ''.'' # c @ ?tail)"
    using n(2) by (rule digits1_append) (rule separators)
  have 3: "digits1 (c @ ?tail) = Some (c, ?tail)"
    using n(3) assms(2) by (rule third_number)
  note 4 = tail_match [OF po so assms(2)]
  show ?thesis
    unfolding s re_match_version_def
    by (simp only: 1 2 3 4 period_Cons option.case prod.case if_True)
qed

subsection \<open>From the match to the parts\<close>

lemma re_match_version_parts:
  assumes "re_match_version s = Some (g1, g2, g3, g4, g5)"
  shows "\<exists>po so nl. g4 = map_option ((#) CHR ''.'') po \<and> g5 = map_option ((#) CHR ''-'') so \<and>
           well_formed_parts g1 g2 g3 po so \<and> (nl = [] \<or> nl = [CHR 0x0A]) \<and>
           s = assemble g1 g2 g3 po so @ nl"
proof -
  from assms obtain s1 s2 s3 s4 s5 s6 s7 where
    d1: "digits1 s = Some (g1, s1)" and p1: "period s1 = Some s2" and
    d2: "digits1 s2 = Some (g2, s3)" and p2: "period s3 = Some s4" and
    d3: "digits1 s4 = Some (g3, s5)" and pa: "opt_patch s5 = (g4, s6)" and
    st: "opt_status s6 = (g5, s7)" and e: "at_end s7"
    by (rule re_match_version_SomeE)
  from d1 d2 d3 have n: "number g1" "number g2" "number g3"
    by (auto dest: digits1_Some)
  from d1 p1 d2 p2 d3 have s: "s = g1 @ ''.'' @ g2 @ ''.'' @ g3 @ s5"
    by (auto dest!: digits1_Some period_Some)
  from opt_patch_cases [OF pa] obtain po where
    po: "g4 = map_option ((#) CHR ''.'') po" "case po of None \<Rightarrow> True | Some p \<Rightarrow> number p"
        "s5 = (case po of None \<Rightarrow> [] | Some p \<Rightarrow> ''.'' @ p) @ s6"
  proof (elim disjE conjE exE)
    assume "g4 = None" "s6 = s5"
    then show ?thesis by (intro that [of None]) simp_all
  next
    fix d assume "g4 = Some (CHR ''.'' # d)" "number d" "s5 = CHR ''.'' # d @ s6"
    then show ?thesis by (intro that [of "Some d"]) simp_all
  qed
  from opt_status_cases [OF st] obtain so where
    so: "g5 = map_option ((#) CHR ''-'') so" "case so of None \<Rightarrow> True | Some t \<Rightarrow> nonblank t"
        "s6 = (case so of None \<Rightarrow> [] | Some t \<Rightarrow> ''-'' @ t) @ s7"
  proof (elim disjE conjE exE)
    assume "g5 = None" "s7 = s6"
    then show ?thesis by (intro that [of None]) simp_all
  next
    fix t assume "g5 = Some (CHR ''-'' # t)" "nonblank t" "s6 = CHR ''-'' # t @ s7"
    then show ?thesis by (intro that [of "Some t"]) simp_all
  qed
  have w: "well_formed_parts g1 g2 g3 po so"
    using n po(2) so(2) by (simp add: well_formed_parts_def)
  have "s = assemble g1 g2 g3 po so @ s7"
    unfolding assemble_def using s po(3) so(3) by simp
  moreover from e have "s7 = [] \<or> s7 = [CHR 0x0A]"
    by (simp add: at_end_def)
  ultimately show ?thesis
    using po(1) so(1) w by blast
qed

subsection \<open>The constructor on a string of the grammar\<close>

lemma Version_init_assemble:
  assumes "well_formed_parts a b c po so" and "nl = [] \<or> nl = [CHR 0x0A]"
  shows "Version_init (assemble a b c po so @ nl) =
           Inr \<lparr> version_str = assemble a b c po so @ nl,
                 major = int_of_digits a, minor = int_of_digits b, micro = int_of_digits c,
                 patch = map_option int_of_digits po, status = so \<rparr>"
  unfolding Version_init_def re_match_version_assemble [OF assms]
  by (simp add: option.map_comp comp_def option.map_ident)

lemma Version_init_accepts:
  "(\<exists>v. Version_init s = Inr v) \<longleftrightarrow>
     grammar_as_coded s \<or> (\<exists>r. grammar_as_coded r \<and> s = r @ [CHR 0x0A])"
proof
  assume "\<exists>v. Version_init s = Inr v"
  then obtain g1 g2 g3 g4 g5 where "re_match_version s = Some (g1, g2, g3, g4, g5)"
    by (auto elim: Version_init_InrE)
  from re_match_version_parts [OF this] obtain po so nl where
    w: "well_formed_parts g1 g2 g3 po so" and nl: "nl = [] \<or> nl = [CHR 0x0A]" and
    s: "s = assemble g1 g2 g3 po so @ nl"
    by blast
  from w have g: "grammar_as_coded (assemble g1 g2 g3 po so)"
    unfolding grammar_as_coded_def by blast
  from nl show "grammar_as_coded s \<or> (\<exists>r. grammar_as_coded r \<and> s = r @ [CHR 0x0A])"
  proof
    assume "nl = []"
    with s g show ?thesis by simp
  next
    assume "nl = [CHR 0x0A]"
    with s g show ?thesis by blast
  qed
next
  assume "grammar_as_coded s \<or> (\<exists>r. grammar_as_coded r \<and> s = r @ [CHR 0x0A])"
  then show "\<exists>v. Version_init s = Inr v"
  proof
    assume "grammar_as_coded s"
    then obtain a b c po so where
      "well_formed_parts a b c po so" "s = assemble a b c po so @ []"
      unfolding grammar_as_coded_def by auto
    then show ?thesis
      using Version_init_assemble [of a b c po so "[]"] by simp
  next
    assume "\<exists>r. grammar_as_coded r \<and> s = r @ [CHR 0x0A]"
    then obtain a b c po so where
      "well_formed_parts a b c po so" "s = assemble a b c po so @ [CHR 0x0A]"
      unfolding grammar_as_coded_def by auto
    then show ?thesis
      using Version_init_assemble [of a b c po so "[CHR 0x0A]"] by simp
  qed
qed

lemma Version_init_rejects:
  assumes "\<forall>v. Version_init s \<noteq> Inr v"
  shows "Version_init s = Inl (ValueError (malformed_message s))"
proof (cases "re_match_version s")
  case None
  then show ?thesis by (simp add: Version_init_def)
next
  case (Some g)
  obtain g1 g2 g3 g4 g5 where "g = (g1, g2, g3, g4, g5)"
    by (cases g) auto
  with Some have "\<exists>v. Version_init s = Inr v"
    by (simp add: Version_init_def)
  with assms show ?thesis by blast
qed

lemma endswith_newline: "endswith s [CHR 0x0A] \<longleftrightarrow> (\<exists>r. s = r @ [CHR 0x0A])"
proof
  assume "endswith s [CHR 0x0A]"
  then have d: "drop (length s - 1) s = [CHR 0x0A]"
    by (simp add: endswith_def)
  have "s = take (length s - 1) s @ drop (length s - 1) s"
    by simp
  then have "s = take (length s - 1) s @ [CHR 0x0A]"
    by (simp only: d)
  then show "\<exists>r. s = r @ [CHR 0x0A]" ..
next
  assume "\<exists>r. s = r @ [CHR 0x0A]"
  then obtain r where "s = r @ [CHR 0x0A]" ..
  then show "endswith s [CHR 0x0A]"
    by (simp add: endswith_def)
qed

lemma number_no_newline: "number d \<Longrightarrow> CHR 0x0A \<notin> set d"
  using separators(3) by (auto simp: number_def list_all_iff)

lemma nonblank_no_newline: "nonblank t \<Longrightarrow> CHR 0x0A \<notin> set t"
  using separators(4) by (auto simp: nonblank_def list_all_iff)

lemma assemble_last:
  assumes "well_formed_parts a b c po so"
  shows "assemble a b c po so \<noteq> r @ [CHR 0x0A]"
proof
  assume e: "assemble a b c po so = r @ [CHR 0x0A]"
  from assms have "CHR 0x0A \<notin> set a" "CHR 0x0A \<notin> set b" "CHR 0x0A \<notin> set c"
    and "case po of None \<Rightarrow> True | Some p \<Rightarrow> CHR 0x0A \<notin> set p"
    and "case so of None \<Rightarrow> True | Some t \<Rightarrow> CHR 0x0A \<notin> set t"
    by (simp_all add: well_formed_parts_def number_no_newline nonblank_no_newline
          split: option.splits)
  then have "CHR 0x0A \<notin> set (assemble a b c po so)"
    by (cases po; cases so) (simp_all add: assemble_def)
  with e show False by simp
qed

lemma grammar_as_coded_last:
  assumes "grammar_as_coded s"
  shows "\<not> endswith s [CHR 0x0A]"
proof -
  from assms obtain a b c po so where
    w: "well_formed_parts a b c po so" and s: "s = assemble a b c po so"
    unfolding grammar_as_coded_def by blast
  from assemble_last [OF w] show ?thesis
    unfolding endswith_newline s by blast
qed

text \<open>
  C3 (amended). For every string that does not end in a newline, the constructor succeeds
  exactly when the string matches the grammar major.minor.micro[.patch][-status] in which
  the status after the dash is any run of non-blank characters, the empty run included;
  every other such string fails with the ValueError that carries the string in its
  message. In particular ``abc'', ``1.2'' and ``1.2.3.4.5'' fail.
\<close>

theorem Version_init_grammar:
  assumes "\<not> endswith s [CHR 0x0A]"
  shows "((\<exists>v. Version_init s = Inr v) \<longleftrightarrow> grammar_as_coded s) \<and>
         (\<not> grammar_as_coded s \<longrightarrow> Version_init s = Inl (ValueError (malformed_message s))) \<and>
         Version_init ''abc'' = Inl (ValueError (malformed_message ''abc'')) \<and>
         Version_init ''1.2'' = Inl (ValueError (malformed_message ''1.2'')) \<and>
         Version_init ''1.2.3.4.5'' = Inl (ValueError (malformed_message ''1.2.3.4.5''))"
proof -
  have iff: "(\<exists>v. Version_init s = Inr v) \<longleftrightarrow> grammar_as_coded s"
  proof
    assume "\<exists>v. Version_init s = Inr v"
    then have "grammar_as_coded s \<or> (\<exists>r. grammar_as_coded r \<and> s = r @ [CHR 0x0A])"
      by (simp only: Version_init_accepts)
    with assms show "grammar_as_coded s"
      unfolding endswith_newline by blast
  next
    assume "grammar_as_coded s"
    then show "\<exists>v. Version_init s = Inr v"
      by (simp only: Version_init_accepts simp_thms)
  qed
  have rej: "\<not> grammar_as_coded s \<longrightarrow> Version_init s = Inl (ValueError (malformed_message s))"
    using iff Version_init_rejects [of s] by blast
  have ex: "Version_init ''abc'' = Inl (ValueError (malformed_message ''abc''))"
    "Version_init ''1.2'' = Inl (ValueError (malformed_message ''1.2''))"
    "Version_init ''1.2.3.4.5'' = Inl (ValueError (malformed_message ''1.2.3.4.5''))"
    by (simp_all add: parse_defs)
  from iff rej ex show ?thesis by blast
qed

theorem Version_init_grammar_witness:
  "\<not> endswith ''0.2.2.23-alpha'' [CHR 0x0A] \<and> grammar_as_coded ''0.2.2.23-alpha'' \<and>
   \<not> endswith ''1.2.3.a'' [CHR 0x0A] \<and> \<not> grammar_as_coded ''1.2.3.a'' \<and>
   Version_init ''1.2.3.a'' = Inl (ValueError (malformed_message ''1.2.3.a''))"
proof -
  have h1: "\<not> endswith ''0.2.2.23-alpha'' [CHR 0x0A]"
    by (simp add: endswith_def)
  have h2: "\<not> endswith ''1.2.3.a'' [CHR 0x0A]"
    by (simp add: endswith_def)
  have ok: "Version_init ''0.2.2.23-alpha'' =
     Inr \<lparr> version_str = ''0.2.2.23-alpha'', major = 0, minor = 2, micro = 2,
           patch = Some 23, status = Some ''alpha'' \<rparr>"
    by (simp add: parse_defs)
  have bad: "Version_init ''1.2.3.a'' = Inl (ValueError (malformed_message ''1.2.3.a''))"
    by (simp add: parse_defs)
  from Version_init_grammar [OF h1] ok have g1: "grammar_as_coded ''0.2.2.23-alpha''"
    by blast
  from Version_init_grammar [OF h2] bad have g2: "\<not> grammar_as_coded ''1.2.3.a''"
    by auto
  from h1 h2 g1 g2 bad show ?thesis by blast
qed

text \<open>
  The claim as stated fails on ``1.2.3-'': the string is not in the grammar with a
  non-empty status, and the constructor accepts it, with the empty string as status.
\<close>

theorem Version_init_empty_status:
  "Version_init ''1.2.3-'' =
     Inr \<lparr> version_str = ''1.2.3-'', major = 1, minor = 2, micro = 3,
           patch = None, status = Some [] \<rparr> \<and>
   \<not> grammar_as_claimed ''1.2.3-''"
proof
  show v: "Version_init ''1.2.3-'' =
     Inr \<lparr> version_str = ''1.2.3-'', major = 1, minor = 2, micro = 3,
           patch = None, status = Some [] \<rparr>"
    by (simp add: parse_defs)
  show "\<not> grammar_as_claimed ''1.2.3-''"
  proof
    assume "grammar_as_claimed ''1.2.3-''"
    then obtain a b c po so where
      w: "well_formed_parts a b c po so" and ne: "so \<noteq> Some []" and
      s: "''1.2.3-'' = assemble a b c po so"
      unfolding grammar_as_claimed_def by blast
    have "Version_init (assemble a b c po so @ []) =
           Inr \<lparr> version_str = assemble a b c po so @ [],
                 major = int_of_digits a, minor = int_of_digits b, micro = int_of_digits c,
                 patch = map_option int_of_digits po, status = so \<rparr>"
      using w by (rule Version_init_assemble) simp
    then have "Version_init ''1.2.3-'' =
           Inr \<lparr> version_str = ''1.2.3-'',
                 major = int_of_digits a, minor = int_of_digits b, micro = int_of_digits c,
                 patch = map_option int_of_digits po, status = so \<rparr>"
      by (simp add: s [symmetric])
    with v have "so = Some []" by simp
    with ne show False by contradiction
  qed
qed

section \<open>get_system_tor_version\<close>

subsection \<open>The slice that holds the version\<close>

lemma slice_is_token:
  "str_slice last_line 12 (str_find last_line (CHR '' '') 12) = version_token last_line"
proof (cases "CHR '' '' \<in> set (drop 12 last_line)")
  case True
  let ?tw = "takeWhile (\<lambda>c. c \<noteq> CHR '' '') (drop 12 last_line)"
  from True have ne: "drop 12 last_line \<noteq> []" by auto
  then have len: "12 < length last_line" by simp
  have "length ?tw \<le> length (drop 12 last_line)"
    by (rule length_takeWhile_le)
  then have k: "12 + length ?tw \<le> length last_line"
    using len by simp
  have f: "str_find last_line (CHR '' '') 12 = int (12 + length ?tw)"
    using True by (simp add: str_find_def)
  have i1: "slice_index (length last_line) 12 = 12"
    using len by (simp add: slice_index_def)
  have nn: "\<not> int (12 + length ?tw) < 0" and ni: "nat (int (12 + length ?tw)) = 12 + length ?tw"
    by simp_all
  have i2: "slice_index (length last_line) (int (12 + length ?tw)) = 12 + length ?tw"
    unfolding slice_index_def using k by (simp only: nn ni if_False min_absorb2)
  have "str_slice last_line 12 (str_find last_line (CHR '' '') 12) =
          take (length ?tw) (drop 12 last_line)"
    unfolding str_slice_def Let_def f i1 i2 by simp
  also have "\<dots> = ?tw"
    by (rule takeWhile_eq_take [symmetric])
  finally show ?thesis
    using True by (simp add: version_token_def)
next
  case False
  have f: "str_find last_line (CHR '' '') 12 = - 1"
    using False by (simp add: str_find_def)
  have i1: "slice_index (length last_line) 12 = min (length last_line) 12"
    by (simp add: slice_index_def)
  have i2: "slice_index (length last_line) (- 1) = length last_line - 1"
    unfolding slice_index_def by (cases "length last_line") simp_all
  have "str_slice last_line 12 (str_find last_line (CHR '' '') 12) =
          take (length (drop 12 last_line) - 1) (drop 12 last_line)"
    unfolding str_slice_def Let_def f i1 i2
    by (cases "12 \<le> length last_line") (simp_all add: min_def)
  then show ?thesis
    using False by (simp add: version_token_def butlast_conv_take)
qed

lemma Version_init_Inl:
  "Version_init s = Inl e \<Longrightarrow> e = ValueError (malformed_message s)"
  by (auto simp: Version_init_def split: option.splits)

subsection \<open>The function, one case after the other\<close>

lemma cached_result:
  assumes "VERSION_CACHE st tor_cmd = Some v"
  shows "get_system_tor_version call tor_cmd st = (Inr v, st)"
  using assms by (simp add: get_system_tor_version_def cache_lookup_def dom_def)

lemma raises_result:
  assumes "tor_cmd \<notin> dom (VERSION_CACHE st)"
      and "call (tor_cmd @ '' --version'') = Raises x"
  shows "get_system_tor_version call tor_cmd st =
           (Inl (IOError_of (OSError x)),
            st\<lparr>system_calls := system_calls st @ [tor_cmd @ '' --version'']\<rparr>)"
  using assms by (simp add: get_system_tor_version_def Let_def)

lemma no_output_result:
  assumes "tor_cmd \<notin> dom (VERSION_CACHE st)"
      and "call (tor_cmd @ '' --version'') = Returns None \<or>
           call (tor_cmd @ '' --version'') = Returns (Some [])"
  shows "get_system_tor_version call tor_cmd st =
           (Inl (IOError (no_output_message (tor_cmd @ '' --version''))),
            st\<lparr>system_calls := system_calls st @ [tor_cmd @ '' --version'']\<rparr>)"
  using assms by (auto simp: get_system_tor_version_def Let_def)

lemma unexpected_result:
  assumes "tor_cmd \<notin> dom (VERSION_CACHE st)"
      and "call (tor_cmd @ '' --version'') = Returns (Some ls)" and "ls \<noteq> []"
      and "\<not> (startswith (last ls) ''Tor version '' \<and> endswith (last ls) ''.'')"
  shows "get_system_tor_version call tor_cmd st =
           (Inl (IOError (unexpected_message (tor_cmd @ '' --version'') (last ls))),
            st\<lparr>system_calls := system_calls st @ [tor_cmd @ '' --version'']\<rparr>)"
proof -
  from assms(3) obtain l ls' where ls: "ls = l # ls'" by (cases ls) auto
  have c: "(startswith (last (l # ls')) ''Tor version '' \<and> endswith (last (l # ls')) ''.'') = False"
    using assms(4) unfolding ls by blast
  show ?thesis
    using assms(1,2) unfolding ls
    by (simp add: get_system_tor_version_def Let_def c del: last.simps)
qed

lemma matching_result:
  assumes "tor_cmd \<notin> dom (VERSION_CACHE st)"
      and "call (tor_cmd @ '' --version'') = Returns (Some ls)" and "ls \<noteq> []"
      and "startswith (last ls) ''Tor version ''" and "endswith (last ls) ''.''"
  shows "get_system_tor_version call tor_cmd st =
           (case Version_init (version_token (last ls)) of
              Inr v \<Rightarrow>
                (Inr v,
                 st\<lparr>system_calls := system_calls st @ [tor_cmd @ '' --version''],
                    VERSION_CACHE := (VERSION_CACHE st)(tor_cmd \<mapsto> v)\<rparr>)
            | Inl e \<Rightarrow>
                (Inl (IOError_of e),
                 st\<lparr>system_calls := system_calls st @ [tor_cmd @ '' --version'']\<rparr>))"
proof -
  from assms(3) obtain l ls' where ls: "ls = l # ls'" by (cases ls) auto
  have m: "(startswith (last (l # ls')) ''Tor version '' \<and> endswith (last (l # ls')) ''.'') = True"
    using assms(4,5) unfolding ls by blast
  show ?thesis
  proof (cases "Version_init (version_token (last (l # ls')))")
    case (Inl e)
    then have e: "e = ValueError (malformed_message (version_token (last (l # ls'))))"
      by (rule Version_init_Inl)
    show ?thesis
      using assms(1,2) Inl
      by (simp add: ls get_system_tor_version_def Let_def slice_is_token m e del: last.simps)
  next
    case (Inr v)
    show ?thesis
      using assms(1,2) Inr
      by (simp add: ls get_system_tor_version_def Let_def slice_is_token m cache_lookup_def
            del: last.simps)
  qed
qed

lemma uncached_outcome:
  assumes "tor_cmd \<notin> dom (VERSION_CACHE st)"
  shows "(\<exists>e. get_system_tor_version call tor_cmd st =
              (Inl e, st\<lparr>system_calls := system_calls st @ [tor_cmd @ '' --version'']\<rparr>)) \<or>
         (\<exists>v. get_system_tor_version call tor_cmd st =
              (Inr v, st\<lparr>system_calls := system_calls st @ [tor_cmd @ '' --version''],
                        VERSION_CACHE := (VERSION_CACHE st)(tor_cmd \<mapsto> v)\<rparr>))"
proof (cases "call (tor_cmd @ '' --version'')")
  case (Raises x)
  with assms show ?thesis by (simp add: raises_result)
next
  case (Returns out)
  show ?thesis
  proof (cases "out = None \<or> out = Some []")
    case True
    with Returns have "call (tor_cmd @ '' --version'') = Returns None \<or>
                       call (tor_cmd @ '' --version'') = Returns (Some [])"
      by auto
    with assms show ?thesis by (simp add: no_output_result)
  next
    case False
    then obtain ls where out: "out = Some ls" and ne: "ls \<noteq> []" by auto
    note c = Returns [unfolded out]
    show ?thesis
    proof (cases "startswith (last ls) ''Tor version '' \<and> endswith (last ls) ''.''")
      case False
      from unexpected_result [where call = call, OF assms c ne False] show ?thesis by simp
    next
      case True
      then have m: "startswith (last ls) ''Tor version ''" "endswith (last ls) ''.''"
        by simp_all
      from matching_result [where call = call, OF assms c ne m] show ?thesis
        by (cases "Version_init (version_token (last ls))") simp_all
    qed
  qed
qed

lemma uncached_invokes:
  assumes "tor_cmd \<notin> dom (VERSION_CACHE st)"
  shows "system_calls (snd (get_system_tor_version call tor_cmd st)) =
           system_calls st @ [tor_cmd @ '' --version'']"
  using uncached_outcome [OF assms, where call = call] by auto

lemma failure_uncached:
  assumes "get_system_tor_version call tor_cmd st = (Inl e, st')"
  shows "tor_cmd \<notin> dom (VERSION_CACHE st)"
proof
  assume "tor_cmd \<in> dom (VERSION_CACHE st)"
  then obtain v where "VERSION_CACHE st tor_cmd = Some v" by auto
  from cached_result [OF this, where call = call] assms show False by simp
qed

text \<open>
  C1 (amended). When the target is not cached and the last line of the output starts with
  the 12 characters ``Tor version '' and ends with a period, the version token is what
  follows the prefix up to the first space, or, when no space follows the prefix, what
  follows the prefix without the final period. The function returns the Version that the
  constructor makes of the token, and raises IOError when the constructor rejects the
  token.
\<close>

theorem get_system_tor_version_token:
  assumes "tor_cmd \<notin> dom (VERSION_CACHE st)"
      and "call (tor_cmd @ '' --version'') = Returns (Some ls)" and "ls \<noteq> []"
      and "startswith (last ls) ''Tor version ''" and "endswith (last ls) ''.''"
  shows "fst (get_system_tor_version call tor_cmd st) =
           (case Version_init (version_token (last ls)) of
              Inr v \<Rightarrow> Inr v
            | Inl e \<Rightarrow> Inl (IOError_of e))"
  unfolding matching_result [where call = call, OF assms]
  by (cases "Version_init (version_token (last ls))") simp_all

theorem get_system_tor_version_token_witness:
  "''tor'' \<notin> dom (VERSION_CACHE \<lparr>VERSION_CACHE = Map.empty, system_calls = []\<rparr>) \<and>
   startswith (last [''Tor version 0.2.1.30.'']) ''Tor version '' \<and>
   endswith (last [''Tor version 0.2.1.30.'']) ''.'' \<and>
   version_token ''Tor version 0.2.1.30.'' = ''0.2.1.30'' \<and>
   version_token ''Tor version 0.2.2.35 (git-73ff13ab3cc9570d).'' = ''0.2.2.35'' \<and>
   fst (get_system_tor_version (\<lambda>c. Returns (Some [''Tor version 0.2.1.30.''])) ''tor''
          \<lparr>VERSION_CACHE = Map.empty, system_calls = []\<rparr>) =
     Inr \<lparr> version_str = ''0.2.1.30'', major = 0, minor = 2, micro = 1,
           patch = Some 30, status = None \<rparr>"
proof -
  have h1: "''tor'' \<notin> dom (VERSION_CACHE \<lparr>VERSION_CACHE = Map.empty, system_calls = []\<rparr>)"
    by simp
  have h2: "(\<lambda>c. Returns (Some [''Tor version 0.2.1.30.''])) (''tor'' @ '' --version'') =
              Returns (Some [''Tor version 0.2.1.30.''])"
    by simp
  have h3: "[''Tor version 0.2.1.30.''] \<noteq> []"
    by simp
  have h4: "startswith (last [''Tor version 0.2.1.30.'']) ''Tor version ''"
    by (simp add: startswith_def)
  have h5: "endswith (last [''Tor version 0.2.1.30.'']) ''.''"
    by (simp add: endswith_def)
  have t1: "version_token ''Tor version 0.2.1.30.'' = ''0.2.1.30''"
    by (simp add: version_token_def)
  have t2: "version_token ''Tor version 0.2.2.35 (git-73ff13ab3cc9570d).'' = ''0.2.2.35''"
    by (simp add: version_token_def)
  have v: "Version_init ''0.2.1.30'' =
     Inr \<lparr> version_str = ''0.2.1.30'', major = 0, minor = 2, micro = 1,
           patch = Some 30, status = None \<rparr>"
    by (simp add: parse_defs)
  have r: "fst (get_system_tor_version (\<lambda>c. Returns (Some [''Tor version 0.2.1.30.''])) ''tor''
          \<lparr>VERSION_CACHE = Map.empty, system_calls = []\<rparr>) =
     Inr \<lparr> version_str = ''0.2.1.30'', major = 0, minor = 2, micro = 1,
           patch = Some 30, status = None \<rparr>"
    using get_system_tor_version_token
      [where call = "\<lambda>c. Returns (Some [''Tor version 0.2.1.30.''])", OF h1 h2 h3 h4 h5] t1 v
    by simp
  from h1 h4 h5 t1 t2 r show ?thesis by blast
qed

text \<open>
  The claim as stated fails on its own example: in a last line with descriptive text
  after the version, the first space after the prefix follows the period, so the token is
  ``0.2.1.30.'' and the constructor rejects it.
\<close>

theorem get_system_tor_version_trailing_text:
  "startswith ''Tor version 0.2.1.30. This is experimental software...'' ''Tor version '' \<and>
   endswith ''Tor version 0.2.1.30. This is experimental software...'' ''.'' \<and>
   fst (get_system_tor_version
          (\<lambda>c. Returns (Some [''Tor version 0.2.1.30. This is experimental software...'']))
          ''tor'' \<lparr>VERSION_CACHE = Map.empty, system_calls = []\<rparr>) =
     Inl (IOError_of (ValueError (malformed_message ''0.2.1.30.'')))"
proof -
  let ?l = "''Tor version 0.2.1.30. This is experimental software...''"
  have h1: "''tor'' \<notin> dom (VERSION_CACHE \<lparr>VERSION_CACHE = Map.empty, system_calls = []\<rparr>)"
    by simp
  have h2: "(\<lambda>c. Returns (Some [?l])) (''tor'' @ '' --version'') = Returns (Some [?l])"
    by simp
  have h3: "[?l] \<noteq> []"
    by simp
  have h4: "startswith (last [?l]) ''Tor version ''"
    by (simp add: startswith_def)
  have h5: "endswith (last [?l]) ''.''"
    by (simp add: endswith_def)
  have t: "version_token (last [?l]) = ''0.2.1.30.''"
    by (simp add: version_token_def)
  have v: "Version_init ''0.2.1.30.'' = Inl (ValueError (malformed_message ''0.2.1.30.''))"
    by (simp add: parse_defs)
  have "fst (get_system_tor_version (\<lambda>c. Returns (Some [?l])) ''tor''
          \<lparr>VERSION_CACHE = Map.empty, system_calls = []\<rparr>) =
        Inl (IOError_of (ValueError (malformed_message ''0.2.1.30.'')))"
    unfolding matching_result [where call = "\<lambda>c. Returns (Some [?l])", OF h1 h2 h3 h4 h5] t v
    by simp
  with h4 h5 show ?thesis by simp
qed

text \<open>
  C7. A call that returns a Version leaves it in the cache under the target, and every
  later call for the target, whatever the external command would answer, returns that
  Version and leaves the state as it is, the record of invocations included. A call that
  raises leaves the cache as it was, with the target not in it, so that the next call
  invokes the external command again. For a target that is not cached, an execution
  error, missing or empty output, an unexpected last line and a rejected version token
  each raise.
\<close>

theorem get_system_tor_version_caching:
  "(\<forall>v st'. get_system_tor_version call tor_cmd st = (Inr v, st') \<longrightarrow>
      VERSION_CACHE st' tor_cmd = Some v \<and>
      (\<forall>call'. get_system_tor_version call' tor_cmd st' = (Inr v, st'))) \<and>
   (\<forall>e st'. get_system_tor_version call tor_cmd st = (Inl e, st') \<longrightarrow>
      VERSION_CACHE st' = VERSION_CACHE st \<and>
      tor_cmd \<notin> dom (VERSION_CACHE st') \<and>
      system_calls st' = system_calls st @ [tor_cmd @ '' --version''] \<and>
      (\<forall>call'. system_calls (snd (get_system_tor_version call' tor_cmd st')) =
                 system_calls st' @ [tor_cmd @ '' --version''])) \<and>
   (tor_cmd \<notin> dom (VERSION_CACHE st) \<longrightarrow>
      (\<forall>x. call (tor_cmd @ '' --version'') = Raises x \<longrightarrow>
           fst (get_system_tor_version call tor_cmd st) = Inl (IOError_of (OSError x))) \<and>
      (call (tor_cmd @ '' --version'') = Returns None \<or>
       call (tor_cmd @ '' --version'') = Returns (Some []) \<longrightarrow>
           fst (get_system_tor_version call tor_cmd st) =
             Inl (IOError (no_output_message (tor_cmd @ '' --version'')))) \<and>
      (\<forall>ls. call (tor_cmd @ '' --version'') = Returns (Some ls) \<and> ls \<noteq> [] \<and>
            \<not> (startswith (last ls) ''Tor version '' \<and> endswith (last ls) ''.'') \<longrightarrow>
           fst (get_system_tor_version call tor_cmd st) =
             Inl (IOError (unexpected_message (tor_cmd @ '' --version'') (last ls)))) \<and>
      (\<forall>ls e. call (tor_cmd @ '' --version'') = Returns (Some ls) \<and> ls \<noteq> [] \<and>
            startswith (last ls) ''Tor version '' \<and> endswith (last ls) ''.'' \<and>
            Version_init (version_token (last ls)) = Inl e \<longrightarrow>
           fst (get_system_tor_version call tor_cmd st) = Inl (IOError_of e)))"
proof (intro conjI allI impI)
  fix v st'
  assume r: "get_system_tor_version call tor_cmd st = (Inr v, st')"
  show c: "VERSION_CACHE st' tor_cmd = Some v"
  proof (cases "VERSION_CACHE st tor_cmd")
    case (Some w)
    from cached_result [OF Some, where call = call] r show ?thesis
      using Some by simp
  next
    case None
    then have "tor_cmd \<notin> dom (VERSION_CACHE st)" by auto
    from uncached_outcome [OF this, where call = call] r show ?thesis by auto
  qed
  fix call'
  from c show "get_system_tor_version call' tor_cmd st' = (Inr v, st')"
    by (rule cached_result)
next
  fix e st'
  assume r: "get_system_tor_version call tor_cmd st = (Inl e, st')"
  then have u: "tor_cmd \<notin> dom (VERSION_CACHE st)"
    by (rule failure_uncached)
  from uncached_outcome [OF u, where call = call] r
  have st': "st' = st\<lparr>system_calls := system_calls st @ [tor_cmd @ '' --version'']\<rparr>"
    by auto
  show same: "VERSION_CACHE st' = VERSION_CACHE st"
    by (simp add: st')
  with u show u': "tor_cmd \<notin> dom (VERSION_CACHE st')"
    by simp
  show "system_calls st' = system_calls st @ [tor_cmd @ '' --version'']"
    by (simp add: st')
  fix call'
  from u' show "system_calls (snd (get_system_tor_version call' tor_cmd st')) =
                  system_calls st' @ [tor_cmd @ '' --version'']"
    by (rule uncached_invokes)
next
  fix x
  assume "tor_cmd \<notin> dom (VERSION_CACHE st)" "call (tor_cmd @ '' --version'') = Raises x"
  then show "fst (get_system_tor_version call tor_cmd st) = Inl (IOError_of (OSError x))"
    by (simp add: raises_result)
next
  assume "tor_cmd \<notin> dom (VERSION_CACHE st)"
    "call (tor_cmd @ '' --version'') = Returns None \<or>
     call (tor_cmd @ '' --version'') = Returns (Some [])"
  then show "fst (get_system_tor_version call tor_cmd st) =
               Inl (IOError (no_output_message (tor_cmd @ '' --version'')))"
    by (simp add: no_output_result)
next
  fix ls
  assume u: "tor_cmd \<notin> dom (VERSION_CACHE st)"
    and h: "call (tor_cmd @ '' --version'') = Returns (Some ls) \<and> ls \<noteq> [] \<and>
            \<not> (startswith (last ls) ''Tor version '' \<and> endswith (last ls) ''.'')"
  from h have c: "call (tor_cmd @ '' --version'') = Returns (Some ls)" and ne: "ls \<noteq> []"
    and m: "\<not> (startswith (last ls) ''Tor version '' \<and> endswith (last ls) ''.'')"
    by blast+
  show "fst (get_system_tor_version call tor_cmd st) =
          Inl (IOError (unexpected_message (tor_cmd @ '' --version'') (last ls)))"
    unfolding unexpected_result [where call = call, OF u c ne m] by simp
next
  fix ls e
  assume u: "tor_cmd \<notin> dom (VERSION_CACHE st)"
    and h: "call (tor_cmd @ '' --version'') = Returns (Some ls) \<and> ls \<noteq> [] \<and>
            startswith (last ls) ''Tor version '' \<and> endswith (last ls) ''.'' \<and>
            Version_init (version_token (last ls)) = Inl e"
  from h have c: "call (tor_cmd @ '' --version'') = Returns (Some ls)" and ne: "ls \<noteq> []"
    and m: "startswith (last ls) ''Tor version ''" "endswith (last ls) ''.''"
    and v: "Version_init (version_token (last ls)) = Inl e"
    by blast+
  show "fst (get_system_tor_version call tor_cmd st) = Inl (IOError_of e)"
    unfolding matching_result [where call = call, OF u c ne m] v by simp
qed

theorem get_system_tor_version_caching_witness:
  "get_system_tor_version (\<lambda>c. Returns (Some [''Tor version 0.2.1.30.''])) ''tor''
     \<lparr>VERSION_CACHE = Map.empty, system_calls = []\<rparr> =
     (Inr \<lparr> version_str = ''0.2.1.30'', major = 0, minor = 2, micro = 1,
            patch = Some 30, status = None \<rparr>,
      \<lparr>VERSION_CACHE =
          [''tor'' \<mapsto> \<lparr> version_str = ''0.2.1.30'', major = 0, minor = 2, micro = 1,
                          patch = Some 30, status = None \<rparr>],
        system_calls = [''tor --version'']\<rparr>) \<and>
   get_system_tor_version (\<lambda>c. Raises ''gone'') ''tor''
     \<lparr>VERSION_CACHE =
          [''tor'' \<mapsto> \<lparr> version_str = ''0.2.1.30'', major = 0, minor = 2, micro = 1,
                          patch = Some 30, status = None \<rparr>],
        system_calls = [''tor --version'']\<rparr> =
     (Inr \<lparr> version_str = ''0.2.1.30'', major = 0, minor = 2, micro = 1,
            patch = Some 30, status = None \<rparr>,
      \<lparr>VERSION_CACHE =
          [''tor'' \<mapsto> \<lparr> version_str = ''0.2.1.30'', major = 0, minor = 2, micro = 1,
                          patch = Some 30, status = None \<rparr>],
        system_calls = [''tor --version'']\<rparr>) \<and>
   get_system_tor_version (\<lambda>c. Returns (Some [])) ''tor''
     \<lparr>VERSION_CACHE = Map.empty, system_calls = []\<rparr> =
     (Inl (IOError (no_output_message ''tor --version'')),
      \<lparr>VERSION_CACHE = Map.empty, system_calls = [''tor --version'']\<rparr>) \<and>
   system_calls (snd (get_system_tor_version
       (\<lambda>c. Returns (Some [''Tor version 0.2.1.30.''])) ''tor''
       \<lparr>VERSION_CACHE = Map.empty, system_calls = [''tor --version'']\<rparr>)) =
     [''tor --version'', ''tor --version'']"
proof -
  let ?v = "\<lparr> version_str = ''0.2.1.30'', major = 0, minor = 2, micro = 1,
              patch = Some 30, status = None \<rparr>"
  let ?st0 = "\<lparr>VERSION_CACHE = Map.empty, system_calls = []\<rparr>"
  let ?st1 = "\<lparr>VERSION_CACHE = [''tor'' \<mapsto> ?v], system_calls = [''tor --version'']\<rparr>"
  let ?st2 = "\<lparr>VERSION_CACHE = Map.empty :: string \<rightharpoonup> Version,
               system_calls = [''tor --version'']\<rparr>"
  have t: "version_token ''Tor version 0.2.1.30.'' = ''0.2.1.30''"
    by (simp add: version_token_def)
  have v: "Version_init ''0.2.1.30'' = Inr ?v"
    by (simp add: parse_defs)
  have ok: "get_system_tor_version (\<lambda>c. Returns (Some [''Tor version 0.2.1.30.''])) ''tor'' ?st0 =
              (Inr ?v, ?st1)"
    by (simp add: get_system_tor_version_def Let_def startswith_def endswith_def slice_is_token
          t v cache_lookup_def)
  have bad: "get_system_tor_version (\<lambda>c. Returns (Some [])) ''tor'' ?st0 =
               (Inl (IOError (no_output_message ''tor --version'')), ?st2)"
    by (simp add: get_system_tor_version_def Let_def)
  note a = get_system_tor_version_caching
    [where call = "\<lambda>c. Returns (Some [''Tor version 0.2.1.30.''])" and tor_cmd = "''tor''"
       and st = ?st0, THEN conjunct1, THEN spec, THEN spec, THEN mp, OF ok]
  note b = get_system_tor_version_caching
    [where call = "\<lambda>c. Returns (Some [])" and tor_cmd = "''tor''" and st = ?st0,
     THEN conjunct2, THEN conjunct1, THEN spec, THEN spec, THEN mp, OF bad]
  from a have "\<forall>call'. get_system_tor_version call' ''tor'' ?st1 = (Inr ?v, ?st1)"
    by (rule conjunct2)
  then have again: "get_system_tor_version (\<lambda>c. Raises ''gone'') ''tor'' ?st1 = (Inr ?v, ?st1)"
    by (rule spec)
  from b have "\<forall>call'. system_calls (snd (get_system_tor_version call' ''tor'' ?st2)) =
                     system_calls ?st2 @ [''tor'' @ '' --version'']"
    by (elim conjE)
  then have "system_calls (snd (get_system_tor_version
       (\<lambda>c. Returns (Some [''Tor version 0.2.1.30.''])) ''tor'' ?st2)) =
     system_calls ?st2 @ [''tor'' @ '' --version'']"
    by (rule spec)
  then have retry: "system_calls (snd (get_system_tor_version
       (\<lambda>c. Returns (Some [''Tor version 0.2.1.30.''])) ''tor'' ?st2)) =
     [''tor --version'', ''tor --version'']"
    by simp
  show ?thesis
    by (intro conjI) (rule ok, rule again, rule bad, rule retry)
qed

end
